theory Spec2Isabelle
  imports Main "HOL-Library.AList"
begin

section \<open>The language-server manager of spyder/plugins/languageserver/plugin.py\<close>

text \<open>
  \<open>LanguageServerPlugin\<close> keeps one registry entry per language, a dictionary with the
  keys \<open>'status'\<close>, \<open>'config'\<close> and \<open>'instance'\<close>, and a queue of file registrations per
  language. The embedding passes the manager's state explicitly. Everything the manager
  calls on other objects (client instances, the editor, the projects plugin) is appended
  to a log of calls, in the order in which the code makes them; a Python exception is a
  value \<open>Inl e\<close>, returned together with the state as the exception leaves it.
\<close>

subsection \<open>Python values\<close>

text \<open>
  The values that occur in server configurations and in request parameters: \<open>None\<close>,
  booleans, integers, strings, and nested dictionaries (the \<open>'configurations'\<close> entry).
  A nested dictionary is kept abstract: \<open>VDict n\<close> is a non-empty dictionary and \<open>n\<close>
  names its class under Python's \<open>==\<close>.
\<close>

datatype val = VNone | VBool bool | VInt int | VStr string | VDict nat

text \<open>Truth value of a Python object, as \<open>if x:\<close> and \<open>not x\<close> test it.\<close>

fun truthy :: "val \<Rightarrow> bool" where
  "truthy VNone = False"
| "truthy (VBool b) = b"
| "truthy (VInt i) = (i \<noteq> 0)"
| "truthy (VStr s) = (s \<noteq> [])"
| "truthy (VDict n) = True"

text \<open>Python's \<open>==\<close>: \<open>bool\<close> is a subclass of \<open>int\<close>, so \<open>True == 1\<close> and \<open>False == 0\<close>.\<close>

fun num_of :: "val \<Rightarrow> int option" where
  "num_of (VBool b) = Some (if b then 1 else 0)"
| "num_of (VInt i) = Some i"
| "num_of v = None"

definition py_eq :: "val \<Rightarrow> val \<Rightarrow> bool" where
  "py_eq a b =
     (case num_of a of
        Some x \<Rightarrow> (case num_of b of Some y \<Rightarrow> x = y | None \<Rightarrow> False)
      | None \<Rightarrow> (case num_of b of Some y \<Rightarrow> False | None \<Rightarrow> a = b))"

definition py_ne :: "val \<Rightarrow> val \<Rightarrow> bool" where
  "py_ne a b = (\<not> py_eq a b)"

text \<open>A server configuration and the parameters of a request are dictionaries with string keys.\<close>

type_synonym config = "string \<rightharpoonup> val"
type_synonym params = "string \<rightharpoonup> val"

datatype error = KeyError string | AttributeError string | TypeError

subsection \<open>The environment of the manager\<close>

text \<open>
  \<open>self.main\<close> is the parent passed to \<open>__init__\<close>; it may be \<open>None\<close>, and its \<open>editor\<close>,
  \<open>console\<close> and \<open>projects\<close> attributes may be \<open>None\<close> (the code tests them in
  \<open>register_client_instance\<close> and \<open>get_root_path\<close>). The record says which of them are set.
\<close>

record main_window =
  editor :: bool
  console :: bool
  projects :: bool
  get_active_project_path :: "string option"

text \<open>
  What the manager reads from modules that are not part of the modelled file: the
  configuration system \<open>CONF\<close> (section \<open>'lsp-server'\<close>), \<open>LSP_LANGUAGES\<close>,
  \<open>PYTHON_CONFIG\<close>, \<open>running_under_pytest()\<close>, the environment variable
  \<open>SPY_TEST_USE_INTROSPECTION\<close>, \<open>select_port\<close> and \<open>get_conf_path('lsp_root_path')\<close>.
  \<open>CONF_get_server\<close> is \<open>CONF.get\<close> at an option that holds the configuration dictionary
  of a server; \<open>pyls_configurations\<close> is the nested \<open>'configurations'\<close> dictionary of the
  Python server after \<open>generate_python_config\<close> has written the plugin options into it.
\<close>

record env =
  main :: "main_window option"
  running_under_pytest :: bool
  SPY_TEST_USE_INTROSPECTION :: "string option"
  select_port :: "val \<Rightarrow> val"
  lsp_root_path :: string
  CONF_options :: "string list"
  CONF_get :: "string \<Rightarrow> val"
  CONF_get_server :: "string \<Rightarrow> config"
  LSP_LANGUAGES :: "string list"
  PYTHON_CONFIG :: config
  pyls_configurations :: val

subsection \<open>The state of the manager and the calls it makes\<close>

definition STOPPED :: string where
  "STOPPED = ''stopped''"

definition RUNNING :: string where
  "RUNNING = ''running''"

definition LOCALHOST :: "val list" where
  "LOCALHOST = [VStr ''127.0.0.1'', VStr ''localhost'']"

text \<open>
  The value of \<open>self.clients[language]\<close>. A client instance is an object of the class
  \<open>LSPClient\<close>; the model names it by a handle, the number of instances created before it,
  and \<open>None\<close> is \<open>None\<close>.
\<close>

record client_entry =
  status :: string
  config :: config
  instance' :: "nat option"

datatype signal = sig_initialize | sig_server_error

datatype slot =
    editor_register_lsp_server_settings
  | report_server_error
  | projects_register_lsp_server_settings

text \<open>
  The calls on other objects, with their arguments: the constructor
  \<open>LSPClient(parent=self, server_settings, folder, language)\<close> with the handle of the new
  instance first, \<open>signal.connect(slot)\<close> on an instance, the methods \<open>start\<close>, \<open>stop\<close>,
  \<open>register_file\<close>, \<open>perform_request\<close> and \<open>send_plugin_configurations\<close> of an instance,
  \<open>self.main.editor.stop_lsp_services(language)\<close> and
  \<open>self.main.projects.stop_lsp_services()\<close>. A code editor is named by a number.
\<close>

datatype call =
    LSPClient nat config string string
  | Connect nat signal slot
  | Client_start nat
  | Client_stop nat
  | Client_register_file nat string nat
  | Client_perform_request nat string params
  | Client_send_plugin_configurations nat val
  | Editor_stop_lsp_services string
  | Projects_stop_lsp_services

text \<open>
  \<open>clients\<close> is an association list in insertion order, the order in which Python iterates
  over a dictionary; \<open>AList.update\<close> is the assignment \<open>d[k] = v\<close>. \<open>created\<close> counts the
  client instances created so far and \<open>calls\<close> is the log of calls.
\<close>

record plugin =
  clients :: "(string \<times> client_entry) list"
  register_queue :: "string \<rightharpoonup> (string \<times> nat) list"
  created :: nat
  calls :: "call list"

type_synonym 'a result = "(error + 'a) \<times> plugin"

subsection \<open>Configuration\<close>

text \<open>
  \<^verbatim>\<open>
  def get_languages(self):
      languages = ['python']
      all_options = CONF.options(self.CONF_SECTION)
      for option in all_options:
          if option in [l.lower() for l in LSP_LANGUAGES]:
              languages.append(option)
      return languages
  \<close>
  \<open>lower\<close> is \<open>str.lower\<close> on ASCII letters.
\<close>

definition lower_char :: "char \<Rightarrow> char" where
  "lower_char c =
     (if 65 \<le> (of_char c :: nat) \<and> (of_char c :: nat) \<le> 90
      then char_of ((of_char c :: nat) + 32) else c)"

definition lower :: "string \<Rightarrow> string" where
  "lower s = map lower_char s"

definition get_languages :: "env \<Rightarrow> string list" where
  "get_languages e =
     ''python'' # filter (\<lambda>option. option \<in> set (map lower (LSP_LANGUAGES e))) (CONF_options e)"

text \<open>
  \<open>generate_python_config\<close> copies \<open>PYTHON_CONFIG\<close> and assigns the keys \<open>'cmd'\<close>,
  \<open>'args'\<close>, \<open>'external'\<close>, \<open>'stdio'\<close>, \<open>'host'\<close> and \<open>'port'\<close> from the options:
  \<^verbatim>\<open>
      python_config['cmd'] = cmd
      if host in self.LOCALHOST and not stdio:
          python_config['args'] = '--host {host} --port {port} --tcp'
      else:
          python_config['args'] = ''
      python_config['external'] = external_server
      python_config['stdio'] = stdio
      python_config['host'] = host
      python_config['port'] = port
  \<close>
  The plugin options go into the nested dictionary under \<open>'configurations'\<close>, which the
  model takes from the environment.
\<close>

definition generate_python_config :: "env \<Rightarrow> config" where
  "generate_python_config e =
     (let cmd = CONF_get e ''advanced/command_launch'';
          host = CONF_get e ''advanced/host'';
          port = CONF_get e ''advanced/port'';
          external_server = CONF_get e ''advanced/external'';
          stdio = CONF_get e ''advanced/stdio''
      in (PYTHON_CONFIG e)
           (''cmd'' \<mapsto> cmd,
            ''args'' \<mapsto> (if list_ex (py_eq host) LOCALHOST \<and> \<not> truthy stdio
                        then VStr ''--host {host} --port {port} --tcp'' else VStr ''''),
            ''external'' \<mapsto> external_server,
            ''stdio'' \<mapsto> stdio,
            ''host'' \<mapsto> host,
            ''port'' \<mapsto> port,
            ''configurations'' \<mapsto> pyls_configurations e))"

text \<open>
  \<^verbatim>\<open>
  def get_language_config(self, language):
      if language == 'python':
          return self.generate_python_config()
      else:
          return self.get_option(language)
  \<close>
\<close>

definition get_language_config :: "env \<Rightarrow> string \<Rightarrow> config" where
  "get_language_config e language =
     (if language = ''python'' then generate_python_config e else CONF_get_server e language)"

text \<open>
  \<open>get_root_path\<close>: the path of the active project when there is one, and the directory
  \<open>lsp_root_path\<close> of the configuration otherwise. Its argument \<open>language\<close> is not used.
\<close>

definition get_root_path :: "env \<Rightarrow> string \<Rightarrow> string" where
  "get_root_path e language =
     (let path = (case main e of
                    None \<Rightarrow> None
                  | Some m \<Rightarrow> if projects m then get_active_project_path m else None)
      in case path of
           None \<Rightarrow> lsp_root_path e
         | Some p \<Rightarrow> if p = [] then lsp_root_path e else p)"

subsection \<open>__init__\<close>

text \<open>
  \<^verbatim>\<open>
      self.clients = {}
      self.requests = {}
      self.register_queue = {}
      for language in self.get_languages():
          self.clients[language] = {
              'status': self.STOPPED,
              'config': self.get_language_config(language),
              'instance': None
          }
          self.register_queue[language] = []
  \<close>
  \<open>self.requests\<close> is not read or written by any other method of the class and is left out.
\<close>

definition new_entry :: "env \<Rightarrow> string \<Rightarrow> client_entry" where
  "new_entry e language =
     \<lparr>status = STOPPED, config = get_language_config e language, instance' = None\<rparr>"

definition init_language :: "env \<Rightarrow> plugin \<Rightarrow> string \<Rightarrow> plugin" where
  "init_language e st language =
     st\<lparr>clients := AList.update language (new_entry e language) (clients st),
        register_queue := (register_queue st)(language \<mapsto> [])\<rparr>"

definition init :: "env \<Rightarrow> plugin" where
  "init e =
     foldl (init_language e)
       \<lparr>clients = [], register_queue = Map.empty, created = 0, calls = []\<rparr>
       (get_languages e)"

subsection \<open>register_file\<close>

text \<open>
  \<^verbatim>\<open>
  def register_file(self, language, filename, codeeditor):
      if language in self.clients:
          language_client = self.clients[language]['instance']
          if language_client is None:
              self.register_queue[language].append((filename, codeeditor))
          else:
              language_client.register_file(filename, codeeditor)
  \<close>
\<close>

definition register_file :: "string \<Rightarrow> string \<Rightarrow> nat \<Rightarrow> plugin \<Rightarrow> unit result" where
  "register_file language filename codeeditor st =
     (case map_of (clients st) language of
        None \<Rightarrow> (Inr (), st)
      | Some entry \<Rightarrow>
          (case instance' entry of
             None \<Rightarrow>
               (case register_queue st language of
                  None \<Rightarrow> (Inl (KeyError language), st)
                | Some queue \<Rightarrow>
                    (Inr (),
                     st\<lparr>register_queue :=
                          (register_queue st)(language \<mapsto> queue @ [(filename, codeeditor)])\<rparr>))
           | Some language_client \<Rightarrow>
               (Inr (),
                st\<lparr>calls :=
                     calls st @ [Client_register_file language_client filename codeeditor]\<rparr>)))"

subsection \<open>close_client and send_request\<close>

text \<open>
  \<^verbatim>\<open>
  def close_client(self, language):
      if language in self.clients:
          language_client = self.clients[language]
          if language_client['status'] == self.RUNNING:
              language_client['instance'].stop()
          language_client['status'] = self.STOPPED
  \<close>
  \<open>language_client\<close> is the dictionary stored in \<open>self.clients\<close>, so the assignment to its
  \<open>'status'\<close> changes the registry. Calling \<open>stop\<close> on \<open>None\<close> raises \<open>AttributeError\<close>.
\<close>

definition close_client :: "string \<Rightarrow> plugin \<Rightarrow> unit result" where
  "close_client language st =
     (case map_of (clients st) language of
        None \<Rightarrow> (Inr (), st)
      | Some language_client \<Rightarrow>
          if status language_client = RUNNING then
            (case instance' language_client of
               None \<Rightarrow> (Inl (AttributeError ''stop''), st)
             | Some i \<Rightarrow>
                 (Inr (),
                  st\<lparr>clients :=
                       AList.update language (language_client\<lparr>status := STOPPED\<rparr>) (clients st),
                     calls := calls st @ [Client_stop i]\<rparr>))
          else
            (Inr (),
             st\<lparr>clients :=
                  AList.update language (language_client\<lparr>status := STOPPED\<rparr>) (clients st)\<rparr>))"

text \<open>
  \<^verbatim>\<open>
  def send_request(self, language, request, params):
      if language in self.clients:
          language_client = self.clients[language]
          if language_client['status'] == self.RUNNING:
              client = self.clients[language]['instance']
              client.perform_request(request, params)
  \<close>
\<close>

definition send_request :: "string \<Rightarrow> string \<Rightarrow> params \<Rightarrow> plugin \<Rightarrow> unit result" where
  "send_request language request params st =
     (case map_of (clients st) language of
        None \<Rightarrow> (Inr (), st)
      | Some language_client \<Rightarrow>
          if status language_client = RUNNING then
            (case instance' language_client of
               None \<Rightarrow> (Inl (AttributeError ''perform_request''), st)
             | Some client \<Rightarrow>
                 (Inr (), st\<lparr>calls := calls st @ [Client_perform_request client request params]\<rparr>))
          else (Inr (), st))"

subsection \<open>Loops over languages\<close>

text \<open>
  \<open>for x in xs: f(x)\<close>: the calls run in order and an exception ends the loop, leaving
  the state as the failing call left it.
\<close>

fun for_each :: "('a \<Rightarrow> plugin \<Rightarrow> unit result) \<Rightarrow> 'a list \<Rightarrow> plugin \<Rightarrow> unit result" where
  "for_each f [] st = (Inr (), st)"
| "for_each f (x # xs) st =
     (case f x st of
        (Inl e, st') \<Rightarrow> (Inl e, st')
      | (Inr u, st') \<Rightarrow> for_each f xs st')"

text \<open>
  \<^verbatim>\<open>
  def shutdown(self):
      for language in self.clients:
          self.close_client(language)

  def update_client_status(self, active_set):
      for language in self.clients:
          if language not in active_set:
              self.close_client(language)
  \<close>
  Neither loop adds or removes a key of \<open>self.clients\<close>, so the loop runs over the keys
  the dictionary has when it starts.
\<close>

definition shutdown :: "plugin \<Rightarrow> unit result" where
  "shutdown st = for_each close_client (map fst (clients st)) st"

definition update_client_status :: "string set \<Rightarrow> plugin \<Rightarrow> unit result" where
  "update_client_status active_set st =
     for_each (\<lambda>language s. if language \<notin> active_set then close_client language s else (Inr (), s))
       (map fst (clients st)) st"

subsection \<open>broadcast_request\<close>

text \<open>
  \<^verbatim>\<open>
  def broadcast_request(self, request, params):
      language = params.pop('language', None)
      if language:
          self.send_request(language, request, params)
      else:
          for language in self.clients:
              self.send_request(language, request, params)
  \<close>
  \<open>params.pop\<close> changes the caller's dictionary; the model returns the dictionary as the
  call leaves it. The keys of \<open>self.clients\<close> are strings, so a value that is not a string
  is not among them; testing \<open>language in self.clients\<close> for a dictionary raises
  \<open>TypeError\<close> (it cannot be hashed).
\<close>

definition pop_language :: "params \<Rightarrow> val \<times> params" where
  "pop_language params =
     (case params ''language'' of
        None \<Rightarrow> (VNone, params)
      | Some v \<Rightarrow> (v, params(''language'' := None)))"

definition broadcast_request :: "string \<Rightarrow> params \<Rightarrow> plugin \<Rightarrow> unit result \<times> params" where
  "broadcast_request request params st =
     (let (language, params') = pop_language params in
      (if truthy language then
         (case language of
            VStr l \<Rightarrow> send_request l request params' st
          | VDict n \<Rightarrow> (Inl TypeError, st)
          | _ \<Rightarrow> (Inr (), st))
       else for_each (\<lambda>l. send_request l request params') (map fst (clients st)) st,
       params'))"

subsection \<open>start_client\<close>

text \<open>
  \<^verbatim>\<open>
  def register_client_instance(self, instance):
      if self.main:
          if self.main.editor:
              instance.sig_initialize.connect(
                  self.main.editor.register_lsp_server_settings)
          if self.main.console:
              instance.sig_server_error.connect(self.report_server_error)
          if self.main.projects:
              instance.sig_initialize.connect(
                  self.main.projects.register_lsp_server_settings)
  \<close>
  The method only makes calls; the model returns them.
\<close>

definition register_client_instance :: "env \<Rightarrow> nat \<Rightarrow> call list" where
  "register_client_instance e i =
     (case main e of
        None \<Rightarrow> []
      | Some m \<Rightarrow>
          (if editor m then [Connect i sig_initialize editor_register_lsp_server_settings] else []) @
          (if console m then [Connect i sig_server_error report_server_error] else []) @
          (if projects m then [Connect i sig_initialize projects_register_lsp_server_settings]
           else []))"

text \<open>
  \<^verbatim>\<open>
              if running_under_pytest():
                  if not os.environ.get('SPY_TEST_USE_INTROSPECTION'):
                      return started
  \<close>
  \<open>os.environ.get\<close> returns a string or \<open>None\<close>.
\<close>

definition pytest_gate :: "env \<Rightarrow> bool" where
  "pytest_gate e =
     (running_under_pytest e \<and>
      (case SPY_TEST_USE_INTROSPECTION e of None \<Rightarrow> True | Some s \<Rightarrow> s = []))"

text \<open>
  \<^verbatim>\<open>
                  config = language_client['config']
                  if not config['external']:
                      port = select_port(default_port=config['port'])
                      config['port'] = port
  \<close>
  \<open>config\<close> is the dictionary stored in the entry, so the assignment changes the entry's
  configuration. A missing key raises \<open>KeyError\<close> before anything is changed.
\<close>

definition select_config_port :: "env \<Rightarrow> config \<Rightarrow> error + config" where
  "select_config_port e cfg =
     (case cfg ''external'' of
        None \<Rightarrow> Inl (KeyError ''external'')
      | Some external \<Rightarrow>
          if \<not> truthy external then
            (case cfg ''port'' of
               None \<Rightarrow> Inl (KeyError ''port'')
             | Some default_port \<Rightarrow> Inr (cfg(''port'' \<mapsto> select_port e default_port)))
          else Inr cfg)"

text \<open>
  \<^verbatim>\<open>
                  for entry in queue:
                      language_client.register_file(*entry)
  \<close>
  Here \<open>language_client\<close> is \<open>self.clients[language]\<close>, the dictionary of the entry, not the
  client instance stored under its key \<open>'instance'\<close>. A dictionary has no attribute
  \<open>register_file\<close>, so the first entry of the queue raises \<open>AttributeError\<close>; with an empty
  queue the body never runs.
\<close>

fun replay_queue :: "client_entry \<Rightarrow> (string \<times> nat) list \<Rightarrow> error option" where
  "replay_queue language_client [] = None"
| "replay_queue language_client (entry # rest) = Some (AttributeError ''register_file'')"

text \<open>
  \<^verbatim>\<open>
  def start_client(self, language):
      started = False
      if language in self.clients:
          language_client = self.clients[language]
          queue = self.register_queue[language]
          if running_under_pytest():
              if not os.environ.get('SPY_TEST_USE_INTROSPECTION'):
                  return started
          started = language_client['status'] == self.RUNNING
          if language_client['status'] == self.STOPPED:
              config = language_client['config']
              if not config['external']:
                  port = select_port(default_port=config['port'])
                  config['port'] = port
              language_client['instance'] = LSPClient(
                  parent=self, server_settings=config,
                  folder=self.get_root_path(language), language=language)
              self.register_client_instance(language_client['instance'])
              language_client['instance'].start()
              language_client['status'] = self.RUNNING
              for entry in queue:
                  language_client.register_file(*entry)
              self.register_queue[language] = []
      return started
  \<close>
  When the loop over the queue raises, the entry already has its new instance and the
  status \<open>'running'\<close>, and the queue has not been reset.
\<close>

definition start_client :: "env \<Rightarrow> string \<Rightarrow> plugin \<Rightarrow> bool result" where
  "start_client e language st =
     (case map_of (clients st) language of
        None \<Rightarrow> (Inr False, st)
      | Some language_client \<Rightarrow>
          (case register_queue st language of
             None \<Rightarrow> (Inl (KeyError language), st)
           | Some queue \<Rightarrow>
               if pytest_gate e then (Inr False, st)
               else
                 (let started = (status language_client = RUNNING) in
                  if status language_client = STOPPED then
                    (case select_config_port e (config language_client) of
                       Inl err \<Rightarrow> (Inl err, st)
                     | Inr cfg \<Rightarrow>
                         (let i = created st;
                              running_client =
                                language_client\<lparr>status := RUNNING, config := cfg, instance' := Some i\<rparr>;
                              st' = st\<lparr>clients := AList.update language running_client (clients st),
                                       created := Suc i,
                                       calls := calls st
                                         @ [LSPClient i cfg (get_root_path e language) language]
                                         @ register_client_instance e i
                                         @ [Client_start i]\<rparr>
                          in case replay_queue running_client queue of
                               Some err \<Rightarrow> (Inl err, st')
                             | None \<Rightarrow>
                                 (Inr started,
                                  st'\<lparr>register_queue := (register_queue st')(language \<mapsto> [])\<rparr>)))
                  else (Inr started, st))))"

subsection \<open>update_server_list\<close>

text \<open>
  \<^verbatim>\<open>
              restart_diff = ['cmd', 'args', 'host', 'port', 'external', 'stdio']
              restart = any([current_config[x] != new_config[x]
                             for x in restart_diff])
  \<close>
  The list is built before \<open>any\<close> reads it, so every key is looked up in both
  configurations, in order, and the first missing key raises \<open>KeyError\<close>.
\<close>

definition restart_diff :: "string list" where
  "restart_diff = [''cmd'', ''args'', ''host'', ''port'', ''external'', ''stdio'']"

fun differences :: "config \<Rightarrow> config \<Rightarrow> string list \<Rightarrow> error + bool list" where
  "differences current_config new_config [] = Inr []"
| "differences current_config new_config (x # xs) =
     (case current_config x of
        None \<Rightarrow> Inl (KeyError x)
      | Some a \<Rightarrow>
          (case new_config x of
             None \<Rightarrow> Inl (KeyError x)
           | Some b \<Rightarrow>
               (case differences current_config new_config xs of
                  Inl err \<Rightarrow> Inl err
                | Inr ds \<Rightarrow> Inr (py_ne a b # ds))))"

definition restart :: "config \<Rightarrow> config \<Rightarrow> error + bool" where
  "restart current_config new_config =
     (case differences current_config new_config restart_diff of
        Inl err \<Rightarrow> Inl err
      | Inr ds \<Rightarrow> Inr (list_ex (\<lambda>d. d) ds))"

text \<open>
  \<open>self.main.editor.stop_lsp_services(language)\<close> and
  \<open>self.main.projects.stop_lsp_services()\<close>: an attribute of \<open>None\<close> raises
  \<open>AttributeError\<close>.
\<close>

definition editor_stop_lsp_services :: "env \<Rightarrow> string \<Rightarrow> plugin \<Rightarrow> unit result" where
  "editor_stop_lsp_services e language st =
     (case main e of
        None \<Rightarrow> (Inl (AttributeError ''editor''), st)
      | Some m \<Rightarrow>
          if editor m then (Inr (), st\<lparr>calls := calls st @ [Editor_stop_lsp_services language]\<rparr>)
          else (Inl (AttributeError ''stop_lsp_services''), st))"

definition projects_stop_lsp_services :: "env \<Rightarrow> plugin \<Rightarrow> unit result" where
  "projects_stop_lsp_services e st =
     (case main e of
        None \<Rightarrow> (Inl (AttributeError ''projects''), st)
      | Some m \<Rightarrow>
          if projects m then (Inr (), st\<lparr>calls := calls st @ [Projects_stop_lsp_services]\<rparr>)
          else (Inl (AttributeError ''stop_lsp_services''), st))"

text \<open>
  The branch of \<open>update_server_list\<close> for a running client whose configuration changed:
  \<^verbatim>\<open>
                      elif self.clients[language]['status'] == self.RUNNING:
                          self.main.editor.stop_lsp_services(language)
                          self.main.projects.stop_lsp_services()
                          self.close_client(language)
                          self.clients[language] = config
                          self.start_client(language)
  \<close>
\<close>

definition restart_client :: "env \<Rightarrow> string \<Rightarrow> client_entry \<Rightarrow> plugin \<Rightarrow> unit result" where
  "restart_client e language cfg st =
     (case editor_stop_lsp_services e language st of
        (Inl err, st1) \<Rightarrow> (Inl err, st1)
      | (Inr u1, st1) \<Rightarrow>
          (case projects_stop_lsp_services e st1 of
             (Inl err, st2) \<Rightarrow> (Inl err, st2)
           | (Inr u2, st2) \<Rightarrow>
               (case close_client language st2 of
                  (Inl err, st3) \<Rightarrow> (Inl err, st3)
                | (Inr u3, st3) \<Rightarrow>
                    (case start_client e language
                            (st3\<lparr>clients := AList.update language cfg (clients st3)\<rparr>) of
                       (Inl err, st4) \<Rightarrow> (Inl err, st4)
                     | (Inr started, st4) \<Rightarrow> (Inr (), st4)))))"

text \<open>
  The body of the loop of \<open>update_server_list\<close>, for one language:
  \<^verbatim>\<open>
          config = {'status': self.STOPPED,
                    'config': self.get_language_config(language),
                    'instance': None}
          if language not in self.clients:
              self.clients[language] = config
              self.register_queue[language] = []
          else:
              current_config = self.clients[language]['config']
              new_config = config['config']
              restart_diff = ...
              restart = ...
              if restart:
                  if self.clients[language]['status'] == self.STOPPED:
                      self.clients[language] = config
                  elif self.clients[language]['status'] == self.RUNNING:
                      ...
              else:
                  if self.clients[language]['status'] == self.RUNNING:
                      client = self.clients[language]['instance']
                      client.send_plugin_configurations(
                          new_config['configurations'])
  \<close>
  The \<open>logger\<close> calls have no effect on the manager and are left out.
\<close>

definition update_server :: "env \<Rightarrow> string \<Rightarrow> plugin \<Rightarrow> unit result" where
  "update_server e language st =
     (let cfg = new_entry e language in
      case map_of (clients st) language of
        None \<Rightarrow>
          (Inr (),
           st\<lparr>clients := AList.update language cfg (clients st),
              register_queue := (register_queue st)(language \<mapsto> [])\<rparr>)
      | Some current \<Rightarrow>
          (case restart (config current) (config cfg) of
             Inl err \<Rightarrow> (Inl err, st)
           | Inr True \<Rightarrow>
               if status current = STOPPED then
                 (Inr (), st\<lparr>clients := AList.update language cfg (clients st)\<rparr>)
               else if status current = RUNNING then restart_client e language cfg st
               else (Inr (), st)
           | Inr False \<Rightarrow>
               if status current = RUNNING then
                 (case instance' current of
                    None \<Rightarrow> (Inl (AttributeError ''send_plugin_configurations''), st)
                  | Some client \<Rightarrow>
                      (case config cfg ''configurations'' of
                         None \<Rightarrow> (Inl (KeyError ''configurations''), st)
                       | Some configurations \<Rightarrow>
                           (Inr (),
                            st\<lparr>calls := calls st
                                 @ [Client_send_plugin_configurations client configurations]\<rparr>)))
               else (Inr (), st)))"

text \<open>
  \<^verbatim>\<open>
  def update_server_list(self):
      for language in self.get_languages():
          ...
  \<close>
\<close>

definition update_server_list :: "env \<Rightarrow> plugin \<Rightarrow> unit result" where
  "update_server_list e st = for_each (update_server e) (get_languages e) st"

subsection \<open>Predicates of the statements\<close>

text \<open>
  \<open>is_running st language\<close>: \<open>language\<close> is a key of \<open>clients\<close> and its entry has the status
  \<open>'running'\<close>. \<open>running_instance st language\<close> is the instance of such an entry.
\<close>

definition is_running :: "plugin \<Rightarrow> string \<Rightarrow> bool" where
  "is_running st language =
     (case map_of (clients st) language of
        None \<Rightarrow> False
      | Some entry \<Rightarrow> status entry = RUNNING)"

definition running_instance :: "plugin \<Rightarrow> string \<Rightarrow> nat option" where
  "running_instance st language =
     (case map_of (clients st) language of
        None \<Rightarrow> None
      | Some entry \<Rightarrow> if status entry = RUNNING then instance' entry else None)"

text \<open>
  The registry invariant: the keys of \<open>clients\<close> are distinct (a dictionary holds one value
  per key), every status is \<open>'stopped'\<close> or \<open>'running'\<close>, and every key of \<open>clients\<close> is a
  key of \<open>register_queue\<close>.
\<close>

definition registry_inv :: "plugin \<Rightarrow> bool" where
  "registry_inv st =
     (distinct (map fst (clients st)) \<and>
      list_all
        (\<lambda>(language, entry).
           (status entry = STOPPED \<or> status entry = RUNNING) \<and>
           register_queue st language \<noteq> None)
        (clients st))"

text \<open>
  An entry gets the status \<open>'running'\<close> only in \<open>start_client\<close>, after its instance has been
  created, so in every state the manager reaches a running entry has an instance.
\<close>

definition running_have_instance :: "plugin \<Rightarrow> bool" where
  "running_have_instance st =
     list_all (\<lambda>(language, entry). status entry \<noteq> RUNNING \<or> instance' entry \<noteq> None)
       (clients st)"

text \<open>
  The languages that \<open>broadcast_request\<close> addresses, given the value popped from
  \<open>params\<close>: the language itself when the value is true, every language otherwise.
  A true value that is not a string names no language.
\<close>

definition request_targets :: "plugin \<Rightarrow> val \<Rightarrow> string list" where
  "request_targets st language =
     (if truthy language then (case language of VStr l \<Rightarrow> [l] | _ \<Rightarrow> [])
      else map fst (clients st))"



subsection \<open>Example inputs\<close>

definition ex_config :: config where
  "ex_config =
     [''cmd'' \<mapsto> VStr ''pyls'', ''args'' \<mapsto> VStr [],
      ''host'' \<mapsto> VStr ''127.0.0.1'', ''port'' \<mapsto> VInt 2087,
      ''external'' \<mapsto> VBool False, ''stdio'' \<mapsto> VBool False,
      ''configurations'' \<mapsto> VDict 1]"

text \<open>
  An environment outside pytest, with a main window that has an editor, a console and
  the projects plugin, and a server for R configured besides the Python one.
\<close>

definition ex_env :: env where
  "ex_env =
     \<lparr>main = Some \<lparr>editor = True, console = True, projects = True,
                   get_active_project_path = None\<rparr>,
      running_under_pytest = False,
      SPY_TEST_USE_INTROSPECTION = None,
      select_port = (\<lambda>default_port. default_port),
      lsp_root_path = ''lsp_root_path'',
      CONF_options = [''pyflakes'', ''r''],
      CONF_get = (\<lambda>option.
         if option = ''advanced/command_launch'' then VStr ''pyls''
         else if option = ''advanced/host'' then VStr ''127.0.0.1''
         else if option = ''advanced/port'' then VInt 2087
         else VBool False),
      CONF_get_server = (\<lambda>language. ex_config(''cmd'' \<mapsto> VStr ''R'')),
      LSP_LANGUAGES = [''Julia'', ''R''],
      PYTHON_CONFIG = [''index'' \<mapsto> VInt 0],
      pyls_configurations = VDict 1\<rparr>"

text \<open>
  A state with a running Python client (instance 0) and a stopped entry for R that has
  one file queued.
\<close>

definition ex_plugin :: plugin where
  "ex_plugin =
     \<lparr>clients =
        [(''python'', \<lparr>status = ''running'', config = ex_config, instance' = Some 0\<rparr>),
         (''r'', \<lparr>status = ''stopped'', config = ex_config, instance' = None\<rparr>)],
      register_queue = [''python'' \<mapsto> [], ''r'' \<mapsto> [(''a.R'', 7)]],
      created = 1,
      calls = []\<rparr>"

text \<open>
  A state with two running clients and a stopped entry that still holds the instance it
  had while it ran.
\<close>

definition ex_running :: plugin where
  "ex_running =
     \<lparr>clients =
        [(''python'', \<lparr>status = ''running'', config = ex_config, instance' = Some 0\<rparr>),
         (''r'', \<lparr>status = ''running'', config = ex_config, instance' = Some 1\<rparr>),
         (''julia'', \<lparr>status = ''stopped'', config = ex_config, instance' = Some 2\<rparr>)],
      register_queue = [''python'' \<mapsto> [], ''r'' \<mapsto> [], ''julia'' \<mapsto> []],
      created = 3,
      calls = []\<rparr>"







section \<open>Properties\<close>

subsection \<open>Basic facts\<close>

lemma STOPPED_neq_RUNNING: "STOPPED \<noteq> RUNNING"
  by (simp add: STOPPED_def RUNNING_def)

lemma map_of_clients_None:
  "language \<notin> set (map fst (clients st)) \<Longrightarrow> map_of (clients st) language = None"
  by (simp add: map_of_eq_None_iff)

lemma running_have_instanceD:
  assumes "running_have_instance st" and "map_of (clients st) language = Some entry"
    and "status entry = RUNNING"
  shows "\<exists>i. instance' entry = Some i"
proof -
  from assms(2) have "(language, entry) \<in> set (clients st)" by (rule map_of_SomeD)
  with assms(1) have "status entry \<noteq> RUNNING \<or> instance' entry \<noteq> None"
    by (auto simp: running_have_instance_def list_all_iff)
  with assms(3) show ?thesis by auto
qed

subsection \<open>Languages that are not registered\<close>

text \<open>
  C10. For a language that is not a key of \<open>clients\<close>, \<open>register_file\<close>, \<open>send_request\<close>,
  \<open>close_client\<close> and \<open>start_client\<close> return without an exception and leave the whole
  state as it was; \<open>start_client\<close> returns \<open>False\<close>.
\<close>

theorem unregistered_language_noop:
  assumes "language \<notin> set (map fst (clients st))"
  shows "register_file language filename codeeditor st = (Inr (), st)
       \<and> send_request language request params st = (Inr (), st)
       \<and> close_client language st = (Inr (), st)
       \<and> start_client e language st = (Inr False, st)"
  using map_of_clients_None [OF assms]
  by (simp add: register_file_def send_request_def close_client_def start_client_def)

theorem unregistered_language_noop_witness:
  "''julia'' \<notin> set (map fst (clients ex_plugin))
   \<and> register_file ''julia'' ''a.jl'' 3 ex_plugin = (Inr (), ex_plugin)
   \<and> send_request ''julia'' ''textDocument/didOpen'' Map.empty ex_plugin = (Inr (), ex_plugin)
   \<and> close_client ''julia'' ex_plugin = (Inr (), ex_plugin)
   \<and> start_client ex_env ''julia'' ex_plugin = (Inr False, ex_plugin)"
proof -
  have h: "''julia'' \<notin> set (map fst (clients ex_plugin))"
    by (simp add: ex_plugin_def)
  from h unregistered_language_noop [OF h] show ?thesis by simp
qed

subsection \<open>register_file\<close>

text \<open>
  C2. For a language that is a key of \<open>clients\<close> (and so, by the registry invariant, of
  \<open>register_queue\<close>): when the entry's instance is \<open>None\<close>, \<open>register_file\<close> appends the pair
  \<open>(filename, codeeditor)\<close> to the language's queue and changes nothing else; otherwise it
  calls \<open>register_file(filename, codeeditor)\<close> on the instance and leaves the queue, and the
  rest of the state, as it was.
\<close>

theorem register_file_queues_or_forwards:
  assumes "map_of (clients st) language = Some entry"
    and "register_queue st language = Some queue"
  shows "(instance' entry = None \<longrightarrow>
            register_file language filename codeeditor st =
              (Inr (), st\<lparr>register_queue :=
                            (register_queue st)(language \<mapsto> queue @ [(filename, codeeditor)])\<rparr>))
       \<and> (\<forall>client. instance' entry = Some client \<longrightarrow>
            register_file language filename codeeditor st =
              (Inr (), st\<lparr>calls := calls st @ [Client_register_file client filename codeeditor]\<rparr>))"
  using assms by (simp add: register_file_def)

theorem register_file_queues_or_forwards_witness:
  "register_file ''r'' ''b.R'' 8 ex_plugin =
     (Inr (), ex_plugin\<lparr>register_queue :=
                 (register_queue ex_plugin)(''r'' \<mapsto> [(''a.R'', 7), (''b.R'', 8)])\<rparr>)
   \<and> register_file ''python'' ''b.py'' 9 ex_plugin =
     (Inr (), ex_plugin\<lparr>calls := [Client_register_file 0 ''b.py'' 9]\<rparr>)"
proof -
  have r: "map_of (clients ex_plugin) ''r'' =
             Some \<lparr>status = ''stopped'', config = ex_config, instance' = None\<rparr>"
    and rq: "register_queue ex_plugin ''r'' = Some [(''a.R'', 7)]"
    and p: "map_of (clients ex_plugin) ''python'' =
             Some \<lparr>status = ''running'', config = ex_config, instance' = Some 0\<rparr>"
    and pq: "register_queue ex_plugin ''python'' = Some []"
    by (simp_all add: ex_plugin_def)
  from register_file_queues_or_forwards [OF r rq, of "''b.R''" 8]
       register_file_queues_or_forwards [OF p pq, of "''b.py''" 9]
  show ?thesis by (simp add: ex_plugin_def)
qed

subsection \<open>send_request\<close>

lemma is_running_instance:
  assumes "running_have_instance st"
  shows "(running_instance st language \<noteq> None) = is_running st language"
proof (cases "map_of (clients st) language")
  case None
  then show ?thesis by (simp add: running_instance_def is_running_def)
next
  case (Some entry)
  show ?thesis
  proof (cases "status entry = RUNNING")
    case True
    with running_have_instanceD [OF assms Some] obtain i where "instance' entry = Some i"
      by blast
    with Some True show ?thesis by (simp add: running_instance_def is_running_def)
  next
    case False
    with Some show ?thesis by (simp add: running_instance_def is_running_def)
  qed
qed

lemma send_request_calls:
  assumes "running_have_instance st"
  shows "send_request language request params st =
           (Inr (), st\<lparr>calls := calls st @
              (case running_instance st language of
                 None \<Rightarrow> []
               | Some client \<Rightarrow> [Client_perform_request client request params])\<rparr>)"
proof (cases "map_of (clients st) language")
  case None
  then show ?thesis by (simp add: send_request_def running_instance_def)
next
  case (Some entry)
  show ?thesis
  proof (cases "status entry = RUNNING")
    case True
    with running_have_instanceD [OF assms Some] obtain i where "instance' entry = Some i"
      by blast
    with Some True show ?thesis by (simp add: send_request_def running_instance_def)
  next
    case False
    with Some show ?thesis by (simp add: send_request_def running_instance_def)
  qed
qed

text \<open>
  C5. In a state where every running entry has an instance, \<open>send_request\<close> calls
  \<open>perform_request(request, params)\<close> on the language's instance exactly when the language
  is a key of \<open>clients\<close> whose status is \<open>'running'\<close>; in every other case it makes no call
  and returns the state as it was (so \<open>clients\<close> and \<open>register_queue\<close> are unchanged; in the
  first case only the log of calls grows).
\<close>

theorem send_request_running_guard:
  assumes "running_have_instance st"
  shows "(is_running st language \<longrightarrow>
            (\<exists>client. running_instance st language = Some client \<and>
               send_request language request params st =
                 (Inr (), st\<lparr>calls := calls st @ [Client_perform_request client request params]\<rparr>)))
       \<and> (\<not> is_running st language \<longrightarrow>
            send_request language request params st = (Inr (), st))"
proof (cases "running_instance st language")
  case None
  with is_running_instance [OF assms, of language] have "\<not> is_running st language" by simp
  with None send_request_calls [OF assms, of language request params] show ?thesis by simp
next
  case (Some client)
  with is_running_instance [OF assms, of language] have "is_running st language" by simp
  with Some send_request_calls [OF assms, of language request params] show ?thesis by simp
qed

theorem send_request_running_guard_witness:
  "running_have_instance ex_plugin
   \<and> is_running ex_plugin ''python''
   \<and> send_request ''python'' ''textDocument/hover'' [''line'' \<mapsto> VInt 3] ex_plugin =
       (Inr (), ex_plugin\<lparr>calls :=
          [Client_perform_request 0 ''textDocument/hover'' [''line'' \<mapsto> VInt 3]]\<rparr>)
   \<and> \<not> is_running ex_plugin ''r''
   \<and> send_request ''r'' ''textDocument/hover'' [''line'' \<mapsto> VInt 3] ex_plugin =
       (Inr (), ex_plugin)"
proof -
  have h: "running_have_instance ex_plugin"
    by (simp add: running_have_instance_def ex_plugin_def RUNNING_def)
  have p: "is_running ex_plugin ''python''" and r: "\<not> is_running ex_plugin ''r''"
    and i: "running_instance ex_plugin ''python'' = Some 0"
    by (simp_all add: is_running_def running_instance_def ex_plugin_def RUNNING_def)
  from send_request_running_guard [OF h, of "''python''" "''textDocument/hover''" "[''line'' \<mapsto> VInt 3]"]
       send_request_running_guard [OF h, of "''r''" "''textDocument/hover''" "[''line'' \<mapsto> VInt 3]"]
       h p r i
  show ?thesis by (simp add: ex_plugin_def)
qed

subsection \<open>close_client\<close>

lemma map_of_update_other:
  "l \<noteq> language \<Longrightarrow> map_of (AList.update language v al) l = map_of al l"
  by (simp add: AList.update_conv')

lemma map_of_update_same: "map_of (AList.update language v al) language = Some v"
  by (simp add: AList.update_conv')

lemma keys_update_present:
  "map_of al language = Some v' \<Longrightarrow> map fst (AList.update language v al) = map fst al"
  by (auto simp: AList.update_keys dest: map_of_SomeD intro: rev_image_eqI)

lemma close_client_result:
  assumes "running_have_instance st" and "map_of (clients st) language = Some entry"
  shows "close_client language st =
           (Inr (),
            st\<lparr>clients := AList.update language (entry\<lparr>status := STOPPED\<rparr>) (clients st),
               calls := calls st @
                 (case running_instance st language of None \<Rightarrow> [] | Some i \<Rightarrow> [Client_stop i])\<rparr>)"
proof (cases "status entry = RUNNING")
  case True
  with running_have_instanceD [OF assms] obtain i where "instance' entry = Some i"
    by blast
  with assms(2) True show ?thesis by (simp add: close_client_def running_instance_def)
next
  case False
  with assms(2) show ?thesis by (simp add: close_client_def running_instance_def)
qed

lemma close_client_stopped:
  assumes "map_of (clients st) language = Some entry" and "status entry = STOPPED"
  shows "close_client language st = (Inr (), st)"
proof -
  from assms(2) have e: "entry\<lparr>status := STOPPED\<rparr> = entry" by simp
  have "AList.update language (entry\<lparr>status := STOPPED\<rparr>) (clients st) = clients st"
    unfolding e by (rule AList.update_triv [OF assms(1)])
  with assms STOPPED_neq_RUNNING show ?thesis
    by (simp add: close_client_def)
qed

text \<open>
  C9. For a language that is a key of \<open>clients\<close>, in a state where every running entry has
  an instance, \<open>close_client\<close> returns without an exception and changes only the status of
  that entry, which becomes \<open>'stopped'\<close>: the entry keeps its \<open>config\<close> and its \<open>instance\<close>,
  the entries of the other languages, the order of the keys and \<open>register_queue\<close> are as
  before. A second call on the same language changes nothing at all, the log of calls
  included.
\<close>

theorem close_client_frame:
  assumes "running_have_instance st" and "map_of (clients st) language = Some entry"
  shows "fst (close_client language st) = Inr ()
       \<and> clients (snd (close_client language st)) =
           AList.update language (entry\<lparr>status := STOPPED\<rparr>) (clients st)
       \<and> map_of (clients (snd (close_client language st))) language =
           Some \<lparr>status = STOPPED, config = config entry, instance' = instance' entry\<rparr>
       \<and> (\<forall>l. l \<noteq> language \<longrightarrow>
             map_of (clients (snd (close_client language st))) l = map_of (clients st) l)
       \<and> map fst (clients (snd (close_client language st))) = map fst (clients st)
       \<and> register_queue (snd (close_client language st)) = register_queue st
       \<and> close_client language (snd (close_client language st)) =
           (Inr (), snd (close_client language st))"
proof -
  let ?st' = "snd (close_client language st)"
  note r = close_client_result [OF assms]
  have c: "clients ?st' = AList.update language (entry\<lparr>status := STOPPED\<rparr>) (clients st)"
    by (simp add: r)
  have m: "map_of (clients ?st') language = Some (entry\<lparr>status := STOPPED\<rparr>)"
    by (simp add: c map_of_update_same)
  have s: "status (entry\<lparr>status := STOPPED\<rparr>) = STOPPED" by simp
  have e: "entry\<lparr>status := STOPPED\<rparr> =
             \<lparr>status = STOPPED, config = config entry, instance' = instance' entry\<rparr>"
    by simp
  from r c m close_client_stopped [OF m s] keys_update_present [OF assms(2)]
  show ?thesis by (simp add: map_of_update_other e)
qed

theorem close_client_frame_witness:
  "running_have_instance ex_plugin
   \<and> fst (close_client ''python'' ex_plugin) = Inr ()
   \<and> clients (snd (close_client ''python'' ex_plugin)) =
       [(''python'', \<lparr>status = ''stopped'', config = ex_config, instance' = Some 0\<rparr>),
        (''r'', \<lparr>status = ''stopped'', config = ex_config, instance' = None\<rparr>)]
   \<and> register_queue (snd (close_client ''python'' ex_plugin)) = register_queue ex_plugin
   \<and> close_client ''python'' (snd (close_client ''python'' ex_plugin)) =
       (Inr (), snd (close_client ''python'' ex_plugin))"
proof -
  have h: "running_have_instance ex_plugin"
    by (simp add: running_have_instance_def ex_plugin_def RUNNING_def)
  have p: "map_of (clients ex_plugin) ''python'' =
             Some \<lparr>status = ''running'', config = ex_config, instance' = Some 0\<rparr>"
    by (simp add: ex_plugin_def)
  from h close_client_frame [OF h p] show ?thesis
    by (simp add: ex_plugin_def STOPPED_def)
qed

subsection \<open>shutdown and update_client_status\<close>

lemma list_all_update:
  "list_all P al \<Longrightarrow> P (k, v) \<Longrightarrow> list_all P (AList.update k v al)"
  by (induction al) auto


lemma for_each_filter:
  "for_each (\<lambda>x s. if P x then f x s else (Inr (), s)) xs st = for_each f (filter P xs) st"
  by (induction xs arbitrary: st) (auto split: prod.splits sum.splits)

lemma for_each_preserves:
  assumes "\<And>x s. Q s \<Longrightarrow> Q (snd (f x s))" and "Q st"
  shows "Q (snd (for_each f xs st))"
  using assms(2)
proof (induction xs arbitrary: st)
  case Nil
  then show ?case by simp
next
  case (Cons x xs)
  from assms(1) [OF Cons.prems, of x] have q: "Q (snd (f x st))" .
  show ?case
  proof (cases "f x st")
    case (Pair r s1)
    with q have q1: "Q s1" by simp
    show ?thesis
    proof (cases r)
      case (Inl e)
      with Pair q1 show ?thesis by simp
    next
      case (Inr u)
      with Pair Cons.IH [OF q1] show ?thesis by simp
    qed
  qed
qed

lemma close_client_running_have_instance:
  assumes "running_have_instance st"
  shows "running_have_instance (snd (close_client language st))"
proof (cases "map_of (clients st) language")
  case None
  with assms show ?thesis by (simp add: close_client_def)
next
  case (Some entry)
  have "list_all (\<lambda>(l, e). status e \<noteq> RUNNING \<or> instance' e \<noteq> None)
          (AList.update language (entry\<lparr>status := STOPPED\<rparr>) (clients st))"
    using assms STOPPED_neq_RUNNING
    by (intro list_all_update) (simp_all add: running_have_instance_def)
  with close_client_result [OF assms Some] show ?thesis
    by (simp add: running_have_instance_def)
qed

lemma close_client_succeeds:
  "running_have_instance st \<Longrightarrow> fst (close_client language st) = Inr ()"
proof (cases "map_of (clients st) language")
  case None
  then show ?thesis by (simp add: close_client_def)
next
  case (Some entry)
  assume "running_have_instance st"
  from close_client_result [OF this Some] show ?thesis by simp
qed

lemma for_each_close_client_succeeds:
  assumes "running_have_instance st"
  shows "fst (for_each close_client ls st) = Inr ()
       \<and> snd (for_each close_client ls st) = foldl (\<lambda>s l. snd (close_client l s)) st ls"
  using assms
proof (induction ls arbitrary: st)
  case Nil
  then show ?case by simp
next
  case (Cons l ls)
  obtain s1 where s1: "close_client l st = (Inr (), s1)"
    using close_client_succeeds [OF Cons.prems, of l] by (cases "close_client l st") auto
  with close_client_running_have_instance [OF Cons.prems, of l]
  have "running_have_instance s1" by simp
  from Cons.IH [OF this] s1 show ?case by simp
qed

text \<open>The status of a language's entry is \<open>'stopped'\<close>, if it has an entry.\<close>

lemma close_client_keeps_stopped:
  assumes "\<forall>e. map_of (clients st) l = Some e \<longrightarrow> status e = STOPPED"
  shows "\<forall>e. map_of (clients (snd (close_client language st))) l = Some e \<longrightarrow> status e = STOPPED"
  using assms
  by (cases "l = language")
     (auto simp: close_client_def map_of_update_other map_of_update_same
           split: option.splits)

lemma close_client_stops:
  assumes "close_client language st = (Inr u, st')"
  shows "\<forall>e. map_of (clients st') language = Some e \<longrightarrow> status e = STOPPED"
  using assms
  by (auto simp: close_client_def map_of_update_same split: option.splits if_splits)

lemma close_client_keys:
  "fst ` set (clients (snd (close_client language st))) = fst ` set (clients st)"
  by (auto simp: close_client_def AList.dom_update split: option.splits
           dest!: map_of_SomeD intro: rev_image_eqI)

lemma for_each_close_client_keeps_stopped:
  assumes "\<forall>e. map_of (clients st) l = Some e \<longrightarrow> status e = STOPPED"
  shows "\<forall>e. map_of (clients (snd (for_each close_client ls st))) l = Some e
           \<longrightarrow> status e = STOPPED"
proof (rule for_each_preserves
    [where Q = "\<lambda>s::plugin. \<forall>e. map_of (clients s) l = Some e \<longrightarrow> status e = STOPPED"])
  fix x and s :: plugin
  assume "\<forall>e. map_of (clients s) l = Some e \<longrightarrow> status e = STOPPED"
  then show "\<forall>e. map_of (clients (snd (close_client x s))) l = Some e \<longrightarrow> status e = STOPPED"
    by (rule close_client_keeps_stopped)
next
  show "\<forall>e. map_of (clients st) l = Some e \<longrightarrow> status e = STOPPED" by (rule assms)
qed

lemma for_each_close_client_keys:
  "fst ` set (clients (snd (for_each close_client ls st))) = fst ` set (clients st)"
  by (rule for_each_preserves [where Q = "\<lambda>s::plugin. fst ` set (clients s) = fst ` set (clients st)"])
     (simp_all add: close_client_keys)

lemma for_each_close_client_stops:
  assumes "for_each close_client ls st = (Inr u, st')" and "l \<in> set ls"
  shows "\<forall>e. map_of (clients st') l = Some e \<longrightarrow> status e = STOPPED"
  using assms
proof (induction ls arbitrary: st)
  case Nil
  then show ?case by simp
next
  case (Cons x xs)
  from Cons.prems(1) obtain u1 s1 where s1: "close_client x st = (Inr u1, s1)"
    and rest: "for_each close_client xs s1 = (Inr u, st')"
    by (auto split: prod.splits sum.splits)
  show ?case
  proof (cases "l \<in> set xs")
    case True
    from Cons.IH [OF rest True] show ?thesis .
  next
    case False
    with Cons.prems(2) have "l = x" by simp
    with close_client_stops [OF s1]
    have "\<forall>e. map_of (clients s1) l = Some e \<longrightarrow> status e = STOPPED" by simp
    from for_each_close_client_keeps_stopped [OF this, of xs] rest show ?thesis by simp
  qed
qed

text \<open>
  C7. When \<open>shutdown\<close> returns, every entry of \<open>clients\<close> has the status \<open>'stopped'\<close>; when
  \<open>update_client_status(active_set)\<close> returns, every entry whose language is not in
  \<open>active_set\<close> has the status \<open>'stopped'\<close>. In a state where every running entry has an
  instance both return, and \<open>shutdown\<close> leaves the state that calling \<open>close_client\<close> on
  every key of \<open>clients\<close>, in order, produces.
\<close>

theorem shutdown_stops_all:
  "(fst (shutdown st) = Inr () \<longrightarrow>
      (\<forall>l e. map_of (clients (snd (shutdown st))) l = Some e \<longrightarrow> status e = STOPPED))
   \<and> (fst (update_client_status active_set st) = Inr () \<longrightarrow>
      (\<forall>l e. l \<notin> active_set \<and>
             map_of (clients (snd (update_client_status active_set st))) l = Some e
         \<longrightarrow> status e = STOPPED))
   \<and> (running_have_instance st \<longrightarrow>
        fst (shutdown st) = Inr ()
      \<and> snd (shutdown st) = foldl (\<lambda>s l. snd (close_client l s)) st (map fst (clients st))
      \<and> fst (update_client_status active_set st) = Inr ())"
proof (intro conjI impI allI)
  fix l e
  assume ok: "fst (shutdown st) = Inr ()"
    and e: "map_of (clients (snd (shutdown st))) l = Some e"
  from ok have r: "for_each close_client (map fst (clients st)) st = (Inr (), snd (shutdown st))"
    by (simp add: shutdown_def prod_eq_iff)
  from e have "l \<in> fst ` set (clients (snd (shutdown st)))"
    by (auto dest!: map_of_SomeD intro: rev_image_eqI)
  then have "l \<in> set (map fst (clients st))"
    by (simp add: shutdown_def for_each_close_client_keys)
  from for_each_close_client_stops [OF r this] e show "status e = STOPPED" by simp
next
  fix l e
  let ?ls = "filter (\<lambda>l. l \<notin> active_set) (map fst (clients st))"
  let ?st' = "snd (update_client_status active_set st)"
  assume ok: "fst (update_client_status active_set st) = Inr ()"
    and e: "l \<notin> active_set \<and> map_of (clients ?st') l = Some e"
  have u: "update_client_status active_set st = for_each close_client ?ls st"
    by (simp add: update_client_status_def for_each_filter)
  with ok have r: "for_each close_client ?ls st = (Inr (), ?st')"
    by (simp add: prod_eq_iff)
  from e have "l \<in> fst ` set (clients ?st')"
    by (auto dest!: map_of_SomeD intro: rev_image_eqI)
  then have "l \<in> set (map fst (clients st))"
    by (simp add: u for_each_close_client_keys)
  with e have "l \<in> set ?ls" by simp
  from for_each_close_client_stops [OF r this] e show "status e = STOPPED" by simp
next
  assume "running_have_instance st"
  then show "fst (shutdown st) = Inr ()"
    by (simp add: shutdown_def for_each_close_client_succeeds)
next
  assume "running_have_instance st"
  then show "snd (shutdown st) = foldl (\<lambda>s l. snd (close_client l s)) st (map fst (clients st))"
    by (simp add: shutdown_def for_each_close_client_succeeds)
next
  assume "running_have_instance st"
  then show "fst (update_client_status active_set st) = Inr ()"
    by (simp add: update_client_status_def for_each_filter for_each_close_client_succeeds)
qed

theorem shutdown_stops_all_witness:
  "running_have_instance ex_plugin
   \<and> fst (shutdown ex_plugin) = Inr ()
   \<and> map (\<lambda>(l, e). (l, status e)) (clients (snd (shutdown ex_plugin))) =
       [(''python'', ''stopped''), (''r'', ''stopped'')]
   \<and> fst (update_client_status {''r''} ex_plugin) = Inr ()
   \<and> map (\<lambda>(l, e). (l, status e)) (clients (snd (update_client_status {''r''} ex_plugin))) =
       [(''python'', ''stopped''), (''r'', ''stopped'')]"
proof -
  have h: "running_have_instance ex_plugin"
    by (simp add: running_have_instance_def ex_plugin_def RUNNING_def)
  have c: "map (\<lambda>(l, e). (l, status e)) (clients (snd (shutdown ex_plugin))) =
             [(''python'', ''stopped''), (''r'', ''stopped'')]"
    by (simp add: shutdown_def close_client_def ex_plugin_def RUNNING_def STOPPED_def)
  have d: "map (\<lambda>(l, e). (l, status e)) (clients (snd (update_client_status {''r''} ex_plugin))) =
             [(''python'', ''stopped''), (''r'', ''stopped'')]"
    by (simp add: update_client_status_def close_client_def ex_plugin_def RUNNING_def STOPPED_def)
  from shutdown_stops_all [of ex_plugin "{''r''}"] h c d show ?thesis by simp
qed

subsection \<open>broadcast_request\<close>

lemma running_instance_calls [simp]:
  "running_instance (st\<lparr>calls := c\<rparr>) = running_instance st"
  by (simp add: running_instance_def fun_eq_iff)

lemma running_have_instance_calls [simp]:
  "running_have_instance (st\<lparr>calls := c\<rparr>) = running_have_instance st"
  by (simp add: running_have_instance_def)

lemma for_each_send_request:
  assumes "running_have_instance st"
  shows "for_each (\<lambda>l. send_request l request params) ls st =
           (Inr (),
            st\<lparr>calls := calls st @
                 map (\<lambda>client. Client_perform_request client request params)
                   (List.map_filter (running_instance st) ls)\<rparr>)"
  using assms
proof (induction ls arbitrary: st)
  case Nil
  then show ?case by (simp add: List.map_filter_simps)
next
  case (Cons l ls)
  let ?cs = "case running_instance st l of
               None \<Rightarrow> []
             | Some client \<Rightarrow> [Client_perform_request client request params]"
  let ?s1 = "st\<lparr>calls := calls st @ ?cs\<rparr>"
  have s1: "send_request l request params st = (Inr (), ?s1)"
    by (rule send_request_calls [OF Cons.prems])
  have "running_have_instance ?s1" using Cons.prems by simp
  from Cons.IH [OF this] s1 show ?case
    by (cases "running_instance st l") (simp_all add: List.map_filter_simps)
qed

text \<open>
  C6. \<open>broadcast_request\<close> removes the key \<open>'language'\<close> from \<open>params\<close>. When the key held a
  true value, the request goes, with the remaining parameters, to the client of that
  language only; otherwise it goes to the client of every key of \<open>clients\<close>, in order. In
  both cases a client receives it only when its entry is running (the guard of
  \<open>send_request\<close>), and nothing but the log of calls changes. The value under \<open>'language'\<close>
  is taken not to be a dictionary; the state is one where every running entry has an
  instance.
\<close>

theorem broadcast_request_targets:
  assumes "running_have_instance st"
    and "\<forall>n. params ''language'' \<noteq> Some (VDict n)"
  shows "broadcast_request request params st =
           ((Inr (),
             st\<lparr>calls := calls st @
                  map (\<lambda>client. Client_perform_request client request (params(''language'' := None)))
                    (List.map_filter (running_instance st)
                       (request_targets st
                          (case params ''language'' of None \<Rightarrow> VNone | Some v \<Rightarrow> v)))\<rparr>),
            params(''language'' := None))"
proof -
  let ?v = "case params ''language'' of None \<Rightarrow> VNone | Some v \<Rightarrow> v"
  let ?p = "params(''language'' := None)"
  have pop: "pop_language params = (?v, ?p)"
    by (cases "params ''language''") (auto simp: pop_language_def)
  show ?thesis
  proof (cases "truthy ?v")
    case False
    with pop for_each_send_request [OF assms(1), of request ?p "map fst (clients st)"]
    show ?thesis by (simp add: broadcast_request_def request_targets_def)
  next
    case True
    from assms(2) have nd: "\<forall>n. ?v \<noteq> VDict n" by (cases "params ''language''") auto
    show ?thesis
    proof (cases ?v)
      case (VStr l)
      with True pop send_request_calls [OF assms(1), of l request ?p]
      show ?thesis
        by (cases "running_instance st l")
           (simp_all add: broadcast_request_def request_targets_def List.map_filter_simps)
    next
      case (VDict n)
      with nd show ?thesis by simp
    next
      case VNone
      with True show ?thesis by simp
    next
      case (VBool b)
      with True pop show ?thesis
        by (simp add: broadcast_request_def request_targets_def List.map_filter_simps)
    next
      case (VInt i)
      with True pop show ?thesis
        by (simp add: broadcast_request_def request_targets_def List.map_filter_simps)
    qed
  qed
qed

theorem broadcast_request_targets_witness:
  "running_have_instance ex_running
   \<and> broadcast_request ''workspace/didChangeConfiguration''
        [''language'' \<mapsto> VStr ''r'', ''settings'' \<mapsto> VInt 1] ex_running =
       ((Inr (), ex_running\<lparr>calls :=
           [Client_perform_request 1 ''workspace/didChangeConfiguration''
              [''settings'' \<mapsto> VInt 1]]\<rparr>),
        [''settings'' \<mapsto> VInt 1])
   \<and> broadcast_request ''workspace/didChangeConfiguration''
        [''settings'' \<mapsto> VInt 1] ex_running =
       ((Inr (), ex_running\<lparr>calls :=
           [Client_perform_request 0 ''workspace/didChangeConfiguration''
              [''settings'' \<mapsto> VInt 1],
            Client_perform_request 1 ''workspace/didChangeConfiguration''
              [''settings'' \<mapsto> VInt 1]]\<rparr>),
        [''settings'' \<mapsto> VInt 1])"
proof -
  have h: "running_have_instance ex_running"
    by (simp add: running_have_instance_def ex_running_def RUNNING_def)
  have a: "\<forall>n. [''language'' \<mapsto> VStr ''r'', ''settings'' \<mapsto> VInt 1] ''language'' \<noteq> Some (VDict n)"
    and b: "\<forall>n. [''settings'' \<mapsto> VInt (1::int)] ''language'' \<noteq> Some (VDict n)"
    by simp_all
  have p1: "[''language'' \<mapsto> VStr ''r'', ''settings'' \<mapsto> VInt 1](''language'' := None)
              = [''settings'' \<mapsto> VInt 1]"
    and p2: "[''settings'' \<mapsto> VInt 1](''language'' := None) = [''settings'' \<mapsto> VInt 1]"
    by (auto simp: fun_eq_iff)
  note t = broadcast_request_targets
    [where st = ex_running and request = "''workspace/didChangeConfiguration''"]
  from t [where params = "[''language'' \<mapsto> VStr ''r'', ''settings'' \<mapsto> VInt 1]", OF h a]
       t [where params = "[''settings'' \<mapsto> VInt 1]", OF h b]
       h
  show ?thesis
    by (simp add: p1 p2 request_targets_def List.map_filter_simps running_instance_def
          ex_running_def RUNNING_def)
qed

subsection \<open>start_client\<close>

lemma ex_languages: "get_languages ex_env = [''python'', ''r'']"
proof -
  have "map lower [''Julia'', ''R''] = [''julia'', ''r'']" by code_simp
  then show ?thesis by (simp add: get_languages_def ex_env_def)
qed

lemma ex_gate: "\<not> pytest_gate ex_env"
  by (simp add: pytest_gate_def ex_env_def)

lemma ex_root_path: "get_root_path ex_env language = ''lsp_root_path''"
  by (simp add: get_root_path_def ex_env_def)

lemma ex_register_client_instance:
  "register_client_instance ex_env i =
     [Connect i sig_initialize editor_register_lsp_server_settings,
      Connect i sig_server_error report_server_error,
      Connect i sig_initialize projects_register_lsp_server_settings]"
  by (simp add: register_client_instance_def ex_env_def)

lemma ex_select_port: "select_config_port ex_env ex_config = Inr (ex_config(''port'' \<mapsto> VInt 2087))"
  by (simp add: select_config_port_def ex_env_def ex_config_def)

lemma ex_config_port: "ex_config(''port'' \<mapsto> VInt 2087) = ex_config"
  by (auto simp: ex_config_def fun_eq_iff)

text \<open>What \<open>start_client\<close> does for a stopped entry, outside the pytest gate.\<close>

lemma start_client_stopped:
  assumes "map_of (clients st) language = Some entry" and "status entry = STOPPED"
    and "register_queue st language = Some queue" and "\<not> pytest_gate e"
    and "select_config_port e (config entry) = Inr cfg"
  shows "start_client e language st =
           (let st' = st\<lparr>clients :=
                          AList.update language
                            \<lparr>status = RUNNING, config = cfg, instance' = Some (created st)\<rparr>
                            (clients st),
                        created := Suc (created st),
                        calls := calls st
                          @ [LSPClient (created st) cfg (get_root_path e language) language]
                          @ register_client_instance e (created st)
                          @ [Client_start (created st)]\<rparr>
            in if queue = [] then (Inr False, st'\<lparr>register_queue := (register_queue st)(language \<mapsto> [])\<rparr>)
               else (Inl (AttributeError ''register_file''), st'))"
proof -
  have e: "entry\<lparr>status := RUNNING, config := cfg, instance' := Some (created st)\<rparr> =
             \<lparr>status = RUNNING, config = cfg, instance' = Some (created st)\<rparr>"
    by simp
  from assms STOPPED_neq_RUNNING show ?thesis
    by (cases queue) (simp_all add: start_client_def Let_def e)
qed

text \<open>
  X2. In a state where every key of \<open>clients\<close> is a key of \<open>register_queue\<close>,
  \<open>start_client\<close> returns \<open>True\<close> exactly when the language is a key of \<open>clients\<close> whose
  status is \<open>'running'\<close> and the pytest gate does not apply.
\<close>

lemma start_client_returns_True_iff:
  assumes "language \<in> set (map fst (clients st)) \<longrightarrow> register_queue st language \<noteq> None"
  shows "fst (start_client e language st) = Inr True
           \<longleftrightarrow> is_running st language \<and> \<not> pytest_gate e"
proof (cases "map_of (clients st) language")
  case None
  then show ?thesis by (simp add: start_client_def is_running_def)
next
  case (Some entry)
  then have "language \<in> set (map fst (clients st))"
    by (auto dest!: map_of_SomeD intro: rev_image_eqI)
  with assms obtain queue where q: "register_queue st language = Some queue" by auto
  from Some q STOPPED_neq_RUNNING show ?thesis
    by (auto simp: start_client_def is_running_def Let_def
             split: sum.splits option.splits)
qed

theorem start_client_returns_True_witness:
  "register_queue ex_plugin ''python'' = Some []
   \<and> is_running ex_plugin ''python'' \<and> \<not> pytest_gate ex_env
   \<and> fst (start_client ex_env ''python'' ex_plugin) = Inr True"
proof -
  have q: "''python'' \<in> set (map fst (clients ex_plugin)) \<longrightarrow>
             register_queue ex_plugin ''python'' \<noteq> None"
    by (simp add: ex_plugin_def)
  have r: "is_running ex_plugin ''python''"
    by (simp add: is_running_def ex_plugin_def RUNNING_def)
  have e: "register_queue ex_plugin ''python'' = Some []"
    by (simp add: ex_plugin_def)
  from e r ex_gate start_client_returns_True_iff [OF q, of ex_env] show ?thesis by simp
qed

text \<open>
  C1 asks that \<open>start_client\<close>, for a stopped entry outside the pytest gate, creates and
  starts a client, registers every queued pair with it and empties the queue. The code
  does so only when the queue is empty (\<open>start_client_stopped\<close>). Here the manager is
  created, one file is registered for Python and the Python client is started: the client
  is created and started and the entry is running, but the call raises \<open>AttributeError\<close>,
  no \<open>register_file\<close> call reaches the client and the queue still holds the file.
\<close>

theorem start_client_replay_raises:
  "fst (start_client ex_env ''python'' (snd (register_file ''python'' ''a.py'' 3 (init ex_env))))
     = Inl (AttributeError ''register_file'')
   \<and> register_queue
       (snd (start_client ex_env ''python'' (snd (register_file ''python'' ''a.py'' 3 (init ex_env)))))
       ''python'' = Some [(''a.py'', 3)]
   \<and> filter (\<lambda>c. case c of Client_register_file i f ed \<Rightarrow> True | _ \<Rightarrow> False)
       (calls (snd (start_client ex_env ''python''
                      (snd (register_file ''python'' ''a.py'' 3 (init ex_env)))))) = []
   \<and> map (\<lambda>(l, entry). (l, status entry, instance' entry))
       (clients (snd (start_client ex_env ''python''
                        (snd (register_file ''python'' ''a.py'' 3 (init ex_env)))))) =
       [(''python'', ''running'', Some 0), (''r'', ''stopped'', None)]"
proof -
  let ?cfg = "generate_python_config ex_env"
  let ?st = "snd (register_file ''python'' ''a.py'' 3 (init ex_env))"
  have i: "init ex_env =
             \<lparr>clients = [(''python'', new_entry ex_env ''python''), (''r'', new_entry ex_env ''r'')],
              register_queue = [''python'' \<mapsto> [], ''r'' \<mapsto> []],
              created = 0, calls = []\<rparr>"
    by (simp add: init_def ex_languages init_language_def)
  have st: "?st =
             \<lparr>clients = [(''python'', new_entry ex_env ''python''), (''r'', new_entry ex_env ''r'')],
              register_queue = [''python'' \<mapsto> [], ''r'' \<mapsto> []](''python'' \<mapsto> [(''a.py'', 3)]),
              created = 0, calls = []\<rparr>"
    by (simp add: i register_file_def new_entry_def)
  have ext: "?cfg ''external'' = Some (VBool False)" and port: "?cfg ''port'' = Some (VInt 2087)"
    by (simp_all add: generate_python_config_def ex_env_def Let_def)
  have "select_port ex_env (VInt 2087) = VInt 2087" by (simp add: ex_env_def)
  with ext port have sp: "select_config_port ex_env ?cfg = Inr (?cfg(''port'' \<mapsto> VInt 2087))"
    by (simp add: select_config_port_def)
  have m: "map_of (clients ?st) ''python'' = Some (new_entry ex_env ''python'')"
    and s: "status (new_entry ex_env ''python'') = STOPPED"
    and q: "register_queue ?st ''python'' = Some [(''a.py'', 3)]"
    and c: "select_config_port ex_env (config (new_entry ex_env ''python''))
              = Inr (?cfg(''port'' \<mapsto> VInt 2087))"
    by (simp_all add: st new_entry_def get_language_config_def sp)
  show ?thesis
    unfolding start_client_stopped [OF m s q ex_gate c]
    by (simp add: st ex_register_client_instance new_entry_def RUNNING_def STOPPED_def)
qed

text \<open>
  C8 asks that \<open>start_client\<close> returns \<open>False\<close> when it creates and starts a client. It
  returns \<open>True\<close> exactly when the entry was running and the pytest gate is open
  (\<open>start_client_returns_True_iff\<close>), and it returns \<open>False\<close> after starting a client
  whose queue is empty (\<open>start_client_stopped\<close>); with a file queued it creates and
  starts the client (the calls \<open>LSPClient 1\<close> and \<open>Client_start 1\<close> below) and then raises
  \<open>AttributeError\<close> instead of returning.
\<close>

theorem start_client_raises_after_starting:
  "start_client ex_env ''r'' ex_plugin =
     (Inl (AttributeError ''register_file''),
      ex_plugin
        \<lparr>clients :=
           [(''python'', \<lparr>status = ''running'', config = ex_config, instance' = Some 0\<rparr>),
            (''r'', \<lparr>status = ''running'', config = ex_config, instance' = Some 1\<rparr>)],
         created := 2,
         calls :=
           [LSPClient 1 ex_config ''lsp_root_path'' ''r'',
            Connect 1 sig_initialize editor_register_lsp_server_settings,
            Connect 1 sig_server_error report_server_error,
            Connect 1 sig_initialize projects_register_lsp_server_settings,
            Client_start 1]\<rparr>)"
proof -
  have m: "map_of (clients ex_plugin) ''r'' =
             Some \<lparr>status = ''stopped'', config = ex_config, instance' = None\<rparr>"
    and q: "register_queue ex_plugin ''r'' = Some [(''a.R'', 7)]"
    by (simp_all add: ex_plugin_def)
  have s: "status \<lparr>status = ''stopped'', config = ex_config, instance' = None\<rparr> = STOPPED"
    by (simp add: STOPPED_def)
  have c: "select_config_port ex_env
             (config \<lparr>status = ''stopped'', config = ex_config, instance' = None\<rparr>) = Inr ex_config"
    by (simp add: ex_select_port ex_config_port)
  show ?thesis
    unfolding start_client_stopped [OF m s q ex_gate c]
    by (simp add: ex_plugin_def ex_register_client_instance ex_root_path RUNNING_def)
qed

subsection \<open>The registry invariant\<close>

lemma registry_inv_iff:
  "registry_inv st \<longleftrightarrow>
     distinct (map fst (clients st)) \<and>
     (\<forall>l e. map_of (clients st) l = Some e \<longrightarrow>
        (status e = STOPPED \<or> status e = RUNNING) \<and> register_queue st l \<noteq> None)"
proof (cases "distinct (map fst (clients st))")
  case False
  then show ?thesis by (simp add: registry_inv_def)
next
  case True
  then have m: "\<And>l e. map_of (clients st) l = Some e \<longleftrightarrow> (l, e) \<in> set (clients st)"
    by simp
  have "list_all (\<lambda>(language, entry). (status entry = STOPPED \<or> status entry = RUNNING)
            \<and> register_queue st language \<noteq> None) (clients st)
        \<longleftrightarrow> (\<forall>l e. (l, e) \<in> set (clients st) \<longrightarrow>
               (status e = STOPPED \<or> status e = RUNNING) \<and> register_queue st l \<noteq> None)"
    unfolding list_all_iff by fast
  with True show ?thesis unfolding registry_inv_def m by simp
qed

lemma registry_inv_calls [simp]: "registry_inv (st\<lparr>calls := c\<rparr>) = registry_inv st"
  by (simp add: registry_inv_def)

lemma registry_inv_created [simp]: "registry_inv (st\<lparr>created := n\<rparr>) = registry_inv st"
  by (simp add: registry_inv_def)

lemma registry_inv_key:
  "registry_inv st \<Longrightarrow> map_of (clients st) l = Some e \<Longrightarrow> register_queue st l \<noteq> None"
  unfolding registry_inv_iff by blast

lemma registry_inv_queue:
  assumes "registry_inv st" and "\<forall>k. register_queue st k \<noteq> None \<longrightarrow> q k \<noteq> None"
  shows "registry_inv (st\<lparr>register_queue := q\<rparr>)"
  using assms unfolding registry_inv_iff by simp

lemma registry_inv_update_queue:
  assumes "registry_inv st" and "status entry = STOPPED \<or> status entry = RUNNING"
    and "q l \<noteq> None" and "\<forall>k. register_queue st k \<noteq> None \<longrightarrow> q k \<noteq> None"
  shows "registry_inv (st\<lparr>clients := AList.update l entry (clients st), register_queue := q\<rparr>)"
proof -
  from assms(1) have d: "distinct (map fst (clients st))"
    and a: "\<And>k e. map_of (clients st) k = Some e \<Longrightarrow>
              (status e = STOPPED \<or> status e = RUNNING) \<and> register_queue st k \<noteq> None"
    unfolding registry_inv_iff by blast+
  have "(status e = STOPPED \<or> status e = RUNNING) \<and> q k \<noteq> None"
    if "map_of (AList.update l entry (clients st)) k = Some e" for k e
  proof (cases "k = l")
    case True
    with that have "e = entry" by (simp add: map_of_update_same)
    with True assms(2,3) show ?thesis by simp
  next
    case False
    with that have "map_of (clients st) k = Some e" by (simp add: map_of_update_other)
    from a [OF this] assms(4) show ?thesis by blast
  qed
  with AList.distinct_update [OF d, of l entry] show ?thesis
    unfolding registry_inv_iff by simp
qed

lemma registry_inv_update:
  assumes "registry_inv st" and "status entry = STOPPED \<or> status entry = RUNNING"
    and "register_queue st l \<noteq> None"
  shows "registry_inv (st\<lparr>clients := AList.update l entry (clients st)\<rparr>)"
proof -
  from registry_inv_update_queue [OF assms(1,2), of "register_queue st" l] assms(3)
  show ?thesis by simp
qed

lemma registry_inv_register_file:
  assumes "registry_inv st"
  shows "registry_inv (snd (register_file language filename codeeditor st))"
  using assms
  by (auto simp: register_file_def intro!: registry_inv_queue split: option.splits)

lemma registry_inv_send_request:
  "registry_inv st \<Longrightarrow> registry_inv (snd (send_request language request params st))"
  by (auto simp: send_request_def split: option.splits)

lemma registry_inv_close_client:
  assumes "registry_inv st"
  shows "registry_inv (snd (close_client language st))"
proof (cases "map_of (clients st) language")
  case None
  with assms show ?thesis by (simp add: close_client_def)
next
  case (Some entry)
  have "registry_inv (st\<lparr>clients := AList.update language (entry\<lparr>status := STOPPED\<rparr>) (clients st)\<rparr>)"
    by (rule registry_inv_update [OF assms _ registry_inv_key [OF assms Some]]) simp
  with assms Some show ?thesis
    by (simp add: close_client_def split: option.splits)
qed

lemma registry_inv_start_client:
  assumes "registry_inv st"
  shows "registry_inv (snd (start_client e language st))"
proof (cases "map_of (clients st) language")
  case None
  with assms show ?thesis by (simp add: start_client_def)
next
  case (Some entry)
  have u: "registry_inv (st\<lparr>clients := AList.update language
             (entry\<lparr>status := RUNNING, config := cfg, instance' := Some i\<rparr>) (clients st)\<rparr>)"
    for cfg i
    by (rule registry_inv_update [OF assms _ registry_inv_key [OF assms Some]]) simp
  have "registry_inv (st\<lparr>clients := AList.update language
             (entry\<lparr>status := RUNNING, config := cfg, instance' := Some i\<rparr>) (clients st),
           created := n, calls := c, register_queue := (register_queue st)(language \<mapsto> [])\<rparr>)"
    for cfg i n c
    by (rule registry_inv_queue) (simp_all add: u)
  with assms Some u show ?thesis
    by (simp add: start_client_def Let_def split: option.splits sum.splits)
qed

lemma register_queue_close_client:
  "register_queue (snd (close_client language st)) = register_queue st"
  by (simp add: close_client_def split: option.splits)

lemma editor_stop_lsp_services_cases:
  "snd (editor_stop_lsp_services e language st) = st \<or>
   snd (editor_stop_lsp_services e language st) =
     st\<lparr>calls := calls st @ [Editor_stop_lsp_services language]\<rparr>"
  by (simp add: editor_stop_lsp_services_def split: option.splits)

lemma projects_stop_lsp_services_cases:
  "snd (projects_stop_lsp_services e st) = st \<or>
   snd (projects_stop_lsp_services e st) = st\<lparr>calls := calls st @ [Projects_stop_lsp_services]\<rparr>"
  by (simp add: projects_stop_lsp_services_def split: option.splits)

lemma registry_inv_restart_client:
  assumes "registry_inv st" and "register_queue st language \<noteq> None"
    and "status cfg = STOPPED \<or> status cfg = RUNNING"
  shows "registry_inv (snd (restart_client e language cfg st))"
proof -
  obtain r1 s1 where 1: "editor_stop_lsp_services e language st = (r1, s1)" by force
  with editor_stop_lsp_services_cases [of e language st] assms(1,2)
  have p1: "registry_inv s1" "register_queue s1 language \<noteq> None" by auto
  obtain r2 s2 where 2: "projects_stop_lsp_services e s1 = (r2, s2)" by force
  with projects_stop_lsp_services_cases [of e s1] p1
  have p2: "registry_inv s2" "register_queue s2 language \<noteq> None" by auto
  obtain r3 s3 where 3: "close_client language s2 = (r3, s3)" by force
  with registry_inv_close_client [OF p2(1), of language] register_queue_close_client [of language s2] p2(2)
  have p3: "registry_inv s3" "register_queue s3 language \<noteq> None" by auto
  have "registry_inv (s3\<lparr>clients := AList.update language cfg (clients s3)\<rparr>)"
    by (rule registry_inv_update [OF p3(1) assms(3) p3(2)])
  then have p4: "registry_inv (snd (start_client e language
                   (s3\<lparr>clients := AList.update language cfg (clients s3)\<rparr>)))"
    by (rule registry_inv_start_client)
  from 1 2 3 p1 p2 p3 p4 show ?thesis
    by (auto simp: restart_client_def split: sum.splits prod.splits)
qed

lemma registry_inv_update_server:
  assumes "registry_inv st"
  shows "registry_inv (snd (update_server e language st))"
proof (cases "map_of (clients st) language")
  case None
  have "registry_inv (st\<lparr>clients := AList.update language (new_entry e language) (clients st),
                        register_queue := (register_queue st)(language \<mapsto> [])\<rparr>)"
    by (rule registry_inv_update_queue [OF assms]) (simp_all add: new_entry_def)
  with None show ?thesis by (simp add: update_server_def)
next
  case (Some current)
  note q = registry_inv_key [OF assms Some]
  have s: "status (new_entry e language) = STOPPED \<or> status (new_entry e language) = RUNNING"
    by (simp add: new_entry_def)
  note a = registry_inv_update [OF assms s q]
  note b = registry_inv_restart_client [OF assms q s, of e]
  from assms Some a b show ?thesis
    by (simp add: update_server_def Let_def split: sum.splits bool.splits option.splits)
qed

lemma registry_inv_for_each:
  assumes "\<And>x s. registry_inv s \<Longrightarrow> registry_inv (snd (f x s))" and "registry_inv st"
  shows "registry_inv (snd (for_each f xs st))"
  using assms by (rule for_each_preserves)

lemma registry_inv_broadcast_request:
  assumes "registry_inv st"
  shows "registry_inv (snd (fst (broadcast_request request params st)))"
proof -
  have "registry_inv (snd (for_each (\<lambda>l. send_request l request p) ls st))" for p ls
    by (rule registry_inv_for_each [OF registry_inv_send_request assms])
  with assms registry_inv_send_request [OF assms] show ?thesis
    by (simp add: broadcast_request_def split: prod.splits val.splits)
qed

lemma registry_inv_init_languages:
  "registry_inv st \<Longrightarrow> registry_inv (foldl (init_language e) st ls)"
proof (induction ls arbitrary: st)
  case Nil
  then show ?case by simp
next
  case (Cons l ls)
  have "registry_inv (init_language e st l)"
    unfolding init_language_def
    by (rule registry_inv_update_queue [OF Cons.prems]) (simp_all add: new_entry_def)
  from Cons.IH [OF this] show ?case by simp
qed

text \<open>
  C3. The registry invariant (\<open>registry_inv\<close>: one entry per language, each a record
  with the three fields \<open>status\<close>, \<open>config\<close> and \<open>instance\<close>; every status \<open>'stopped'\<close> or
  \<open>'running'\<close>; every key of \<open>clients\<close> a key of \<open>register_queue\<close>) holds after \<open>__init__\<close>
  and is preserved by \<open>register_file\<close>, \<open>start_client\<close>, \<open>close_client\<close>, \<open>shutdown\<close>,
  \<open>update_server_list\<close>, \<open>update_client_status\<close>, \<open>send_request\<close> and
  \<open>broadcast_request\<close>, also when the operation raises an exception.
\<close>

theorem registry_invariant:
  "registry_inv (init e)
   \<and> (registry_inv st \<longrightarrow>
        registry_inv (snd (register_file language filename codeeditor st))
      \<and> registry_inv (snd (start_client e language st))
      \<and> registry_inv (snd (close_client language st))
      \<and> registry_inv (snd (shutdown st))
      \<and> registry_inv (snd (update_server_list e st))
      \<and> registry_inv (snd (update_client_status active_set st))
      \<and> registry_inv (snd (send_request language request params st))
      \<and> registry_inv (snd (fst (broadcast_request request params st))))"
proof (intro conjI impI)
  show "registry_inv (init e)"
    unfolding init_def by (rule registry_inv_init_languages) (simp add: registry_inv_def)
next
  assume i: "registry_inv st"
  then show "registry_inv (snd (register_file language filename codeeditor st))"
    by (rule registry_inv_register_file)
  from i show "registry_inv (snd (start_client e language st))"
    by (rule registry_inv_start_client)
  from i show "registry_inv (snd (close_client language st))"
    by (rule registry_inv_close_client)
  show "registry_inv (snd (shutdown st))"
    unfolding shutdown_def by (rule registry_inv_for_each [OF registry_inv_close_client i])
  show "registry_inv (snd (update_server_list e st))"
    unfolding update_server_list_def by (rule registry_inv_for_each [OF registry_inv_update_server i])
  show "registry_inv (snd (update_client_status active_set st))"
    unfolding update_client_status_def
    by (rule registry_inv_for_each [OF _ i]) (simp add: registry_inv_close_client)
  from i show "registry_inv (snd (send_request language request params st))"
    by (rule registry_inv_send_request)
  from i show "registry_inv (snd (fst (broadcast_request request params st)))"
    by (rule registry_inv_broadcast_request)
qed

theorem registry_invariant_witness:
  "registry_inv (init ex_env)
   \<and> registry_inv ex_plugin
   \<and> registry_inv (snd (register_file ''r'' ''b.R'' 8 ex_plugin))
   \<and> registry_inv (snd (start_client ex_env ''r'' ex_plugin))
   \<and> registry_inv (snd (close_client ''python'' ex_plugin))
   \<and> registry_inv (snd (shutdown ex_plugin))
   \<and> registry_inv (snd (update_server_list ex_env ex_plugin))
   \<and> registry_inv (snd (update_client_status {''r''} ex_plugin))
   \<and> registry_inv (snd (send_request ''python'' ''textDocument/hover'' Map.empty ex_plugin))
   \<and> registry_inv (snd (fst (broadcast_request ''textDocument/hover'' Map.empty ex_plugin)))"
proof -
  have h: "registry_inv ex_plugin"
    by (simp add: registry_inv_def ex_plugin_def STOPPED_def RUNNING_def)
  from h registry_invariant
         [of ex_env ex_plugin "''r''" "''b.R''" 8 "{''r''}" "''textDocument/hover''" Map.empty]
       registry_invariant
         [of ex_env ex_plugin "''python''" "''b.R''" 8 "{''r''}" "''textDocument/hover''" Map.empty]
  show ?thesis by simp
qed

subsection \<open>Running entries have instances\<close>

lemma running_have_instance_created [simp]:
  "running_have_instance (st\<lparr>created := n\<rparr>) = running_have_instance st"
  by (simp add: running_have_instance_def)

lemma running_have_instance_queue [simp]:
  "running_have_instance (st\<lparr>register_queue := q\<rparr>) = running_have_instance st"
  by (simp add: running_have_instance_def)

lemma running_have_instance_update:
  assumes "running_have_instance st" and "status entry \<noteq> RUNNING \<or> instance' entry \<noteq> None"
  shows "running_have_instance (st\<lparr>clients := AList.update l entry (clients st)\<rparr>)"
  using assms by (simp add: running_have_instance_def list_all_update)

lemma running_have_instance_register_file:
  "running_have_instance st \<Longrightarrow>
     running_have_instance (snd (register_file language filename codeeditor st))"
  by (simp add: register_file_def split: option.splits)

lemma running_have_instance_send_request:
  "running_have_instance st \<Longrightarrow>
     running_have_instance (snd (send_request language request params st))"
  by (simp add: send_request_def split: option.splits)

lemma running_have_instance_start_client:
  assumes "running_have_instance st"
  shows "running_have_instance (snd (start_client e language st))"
proof -
  have "running_have_instance
          (st\<lparr>clients := AList.update language
                 (entry\<lparr>status := RUNNING, config := cfg, instance' := Some i\<rparr>) (clients st)\<rparr>)"
    for entry cfg i
    by (rule running_have_instance_update [OF assms]) simp
  with assms show ?thesis
    by (simp add: start_client_def Let_def split: option.splits sum.splits)
qed

lemma running_have_instance_restart_client:
  assumes "running_have_instance st" and "status cfg \<noteq> RUNNING \<or> instance' cfg \<noteq> None"
  shows "running_have_instance (snd (restart_client e language cfg st))"
proof -
  obtain r1 s1 where 1: "editor_stop_lsp_services e language st = (r1, s1)" by force
  with editor_stop_lsp_services_cases [of e language st] assms(1)
  have p1: "running_have_instance s1" by auto
  obtain r2 s2 where 2: "projects_stop_lsp_services e s1 = (r2, s2)" by force
  with projects_stop_lsp_services_cases [of e s1] p1
  have p2: "running_have_instance s2" by auto
  obtain r3 s3 where 3: "close_client language s2 = (r3, s3)" by force
  with close_client_running_have_instance [OF p2, of language]
  have p3: "running_have_instance s3" by simp
  have "running_have_instance (s3\<lparr>clients := AList.update language cfg (clients s3)\<rparr>)"
    by (rule running_have_instance_update [OF p3 assms(2)])
  then have p4: "running_have_instance (snd (start_client e language
                   (s3\<lparr>clients := AList.update language cfg (clients s3)\<rparr>)))"
    by (rule running_have_instance_start_client)
  from 1 2 3 p1 p2 p3 p4 show ?thesis
    by (auto simp: restart_client_def split: sum.splits prod.splits)
qed

lemma running_have_instance_update_server:
  assumes "running_have_instance st"
  shows "running_have_instance (snd (update_server e language st))"
proof -
  have s: "status (new_entry e language) \<noteq> RUNNING \<or> instance' (new_entry e language) \<noteq> None"
    using STOPPED_neq_RUNNING by (simp add: new_entry_def)
  note a = running_have_instance_update [OF assms s]
  note b = running_have_instance_restart_client [OF assms s, of e]
  from assms a b show ?thesis
    by (simp add: update_server_def Let_def split: sum.splits bool.splits option.splits)
qed

lemma running_have_instance_for_each:
  assumes "\<And>x s. running_have_instance s \<Longrightarrow> running_have_instance (snd (f x s))"
    and "running_have_instance st"
  shows "running_have_instance (snd (for_each f xs st))"
  using assms by (rule for_each_preserves)

lemma running_have_instance_init_languages:
  "running_have_instance st \<Longrightarrow> running_have_instance (foldl (init_language e) st ls)"
proof (induction ls arbitrary: st)
  case Nil
  then show ?case by simp
next
  case (Cons l ls)
  have "running_have_instance (st\<lparr>clients := AList.update l (new_entry e l) (clients st)\<rparr>)"
    using STOPPED_neq_RUNNING
    by (intro running_have_instance_update [OF Cons.prems]) (simp add: new_entry_def)
  then have "running_have_instance (init_language e st l)"
    by (simp add: init_language_def)
  from Cons.IH [OF this] show ?case by simp
qed

text \<open>
  X1. In every state the manager reaches, an entry with the status \<open>'running'\<close> has an
  instance: this holds after \<open>__init__\<close> and every operation preserves it, also when it
  raises an exception.
\<close>

theorem running_have_instance_invariant:
  "running_have_instance (init e)
   \<and> (running_have_instance st \<longrightarrow>
        running_have_instance (snd (register_file language filename codeeditor st))
      \<and> running_have_instance (snd (start_client e language st))
      \<and> running_have_instance (snd (close_client language st))
      \<and> running_have_instance (snd (shutdown st))
      \<and> running_have_instance (snd (update_server_list e st))
      \<and> running_have_instance (snd (update_client_status active_set st))
      \<and> running_have_instance (snd (send_request language request params st))
      \<and> running_have_instance (snd (fst (broadcast_request request params st))))"
proof (intro conjI impI)
  show "running_have_instance (init e)"
    unfolding init_def
    by (rule running_have_instance_init_languages) (simp add: running_have_instance_def)
next
  assume i: "running_have_instance st"
  then show "running_have_instance (snd (register_file language filename codeeditor st))"
    by (rule running_have_instance_register_file)
  from i show "running_have_instance (snd (start_client e language st))"
    by (rule running_have_instance_start_client)
  from i show "running_have_instance (snd (close_client language st))"
    by (rule close_client_running_have_instance)
  show "running_have_instance (snd (shutdown st))"
    unfolding shutdown_def
    by (rule running_have_instance_for_each [OF close_client_running_have_instance i])
  show "running_have_instance (snd (update_server_list e st))"
    unfolding update_server_list_def
    by (rule running_have_instance_for_each [OF running_have_instance_update_server i])
  show "running_have_instance (snd (update_client_status active_set st))"
    unfolding update_client_status_def
    by (rule running_have_instance_for_each [OF _ i])
       (simp add: close_client_running_have_instance)
  from i show "running_have_instance (snd (send_request language request params st))"
    by (rule running_have_instance_send_request)
  have "running_have_instance (snd (for_each (\<lambda>l. send_request l request p) ls st))" for p ls
    by (rule running_have_instance_for_each [OF running_have_instance_send_request i])
  with i running_have_instance_send_request [OF i]
  show "running_have_instance (snd (fst (broadcast_request request params st)))"
    by (simp add: broadcast_request_def split: prod.splits val.splits)
qed

theorem running_have_instance_invariant_witness:
  "running_have_instance (init ex_env)
   \<and> running_have_instance ex_plugin
   \<and> running_have_instance (snd (register_file ''r'' ''b.R'' 8 ex_plugin))
   \<and> running_have_instance (snd (start_client ex_env ''r'' ex_plugin))
   \<and> running_have_instance (snd (close_client ''r'' ex_plugin))
   \<and> running_have_instance (snd (shutdown ex_plugin))
   \<and> running_have_instance (snd (update_server_list ex_env ex_plugin))
   \<and> running_have_instance (snd (update_client_status {''r''} ex_plugin))
   \<and> running_have_instance (snd (send_request ''r'' ''textDocument/hover'' Map.empty ex_plugin))
   \<and> running_have_instance (snd (fst (broadcast_request ''textDocument/hover'' Map.empty ex_plugin)))"
proof -
  have h: "running_have_instance ex_plugin"
    by (simp add: running_have_instance_def ex_plugin_def RUNNING_def)
  from h running_have_instance_invariant
         [of ex_env ex_plugin "''r''" "''b.R''" 8 "{''r''}" "''textDocument/hover''" Map.empty]
  show ?thesis by simp
qed

subsection \<open>update_server_list\<close>


































































end
